theory Spec2Isabelle
  imports Main "HOL-Library.Word"
begin

section \<open>The log levels (loglevel.hpp)\<close>

text \<open>
  \<^verbatim>\<open>#define log_t uint8_t\<close>, with the four levels as macros 0..3. A queued log is a
  \<^verbatim>\<open>std::pair<uint8_t, std::string>\<close>; a \<^verbatim>\<open>std::string\<close> is a list of bytes
  (\<^typ>\<open>char\<close> is the 8-bit character of HOL).
\<close>

type_synonym log_t = "8 word"

type_synonym log = "log_t \<times> string"

definition HEADER :: log_t where "HEADER = 0"
definition INFO :: log_t where "INFO = 1"
definition DEBUG :: log_t where "DEBUG = 2"
definition ERROR :: log_t where "ERROR = 3"


section \<open>The queue of logs (server.cpp: pushQueue, popQueue)\<close>

text \<open>
  \<^verbatim>\<open>logqueue\<close> is a \<^verbatim>\<open>std::queue\<close>: the list of its elements, front first. Both
  methods hold \<^verbatim>\<open>logqueuelock\<close> for their whole body, so each one is a single step on
  the queue. \<^verbatim>\<open>pushQueue\<close> calls \<^verbatim>\<open>push\<close>, which adds at the back.
\<close>

definition pushQueue :: "log \<Rightarrow> log list \<Rightarrow> log list" where
  "pushQueue l logqueue = logqueue @ [l]"

text \<open>
  \<^verbatim>\<open>popQueue\<close> copies \<^verbatim>\<open>front()\<close>, calls \<^verbatim>\<open>pop()\<close> and returns the copy.
  \<^verbatim>\<open>front()\<close> of an empty \<^verbatim>\<open>std::queue\<close> is undefined behaviour: the model
  has no result there (\<open>None\<close>). The only caller, \<^verbatim>\<open>processQueue\<close>, spins on
  \<^verbatim>\<open>logqueue.empty()\<close> before it calls \<^verbatim>\<open>popQueue\<close>.
\<close>

definition popQueue :: "log list \<Rightarrow> (log \<times> log list) option" where
  "popQueue logqueue = (case logqueue of [] \<Rightarrow> None | l # rest \<Rightarrow> Some (l, rest))"

text \<open>
  A sequence of interleaved queue operations: the acceptor's pushes and the attempts of the
  consumer to take a log. The consumer's attempt on an empty queue takes nothing (it keeps
  spinning). \<open>run_queue\<close> returns the logs popped, in the order of the pops, and the queue
  that is left.
\<close>

datatype queue_op = Push log | Pop

fun run_queue :: "queue_op list \<Rightarrow> log list \<Rightarrow> log list \<Rightarrow> log list \<times> log list" where
  "run_queue [] popped logqueue = (popped, logqueue)"
| "run_queue (Push l # ops) popped logqueue = run_queue ops popped (pushQueue l logqueue)"
| "run_queue (Pop # ops) popped logqueue =
     (case popQueue logqueue of
        None \<Rightarrow> run_queue ops popped logqueue
      | Some (l, rest) \<Rightarrow> run_queue ops (popped @ [l]) rest)"

fun pushed :: "queue_op list \<Rightarrow> log list" where
  "pushed [] = []"
| "pushed (Push l # ops) = l # pushed ops"
| "pushed (Pop # ops) = pushed ops"


section \<open>Reading one connection (server.cpp: the inner loop of Logger::start)\<close>

text \<open>
  How the process can stop: \<^verbatim>\<open>exit(status)\<close>, a failed \<^verbatim>\<open>assert\<close> (which calls
  \<^verbatim>\<open>abort()\<close>; the sources are read as built without \<^verbatim>\<open>NDEBUG\<close>), or an
  operation whose behaviour C++ leaves undefined.
\<close>

datatype fatal = Exit int | Abort | Undefined

text \<open>
  Modelled from the spec: the macro \<^verbatim>\<open>EXIT_FAILURE\<close> comes from \<^verbatim>\<open><cstdlib>\<close>,
  which is not part of the repository; the spec calls it the failure (nonzero) exit code,
  and it is 1 on the platforms the server's headers exist on.
\<close>

definition EXIT_FAILURE :: int where
  "EXIT_FAILURE = 1"

abbreviation NUL :: char where "NUL \<equiv> CHR 0x00"
abbreviation LF :: char where "LF \<equiv> CHR 0x0A"
abbreviation ESC :: char where "ESC \<equiv> CHR 0x1B"

text \<open>
  A C string: the bytes from a pointer up to the first NUL. \<^verbatim>\<open>std::string(&buf[k])\<close>
  is \<open>c_str (drop k buf)\<close>.
\<close>

definition c_str :: "string \<Rightarrow> string" where
  "c_str p = takeWhile (\<lambda>c. c \<noteq> NUL) p"

text \<open>
  \<^verbatim>\<open>strtol(nptr, NULL, 10)\<close> of the C library: white space is skipped, an optional sign
  is read, then the longest run of decimal digits; with no digit the result is 0. A value
  outside \<^verbatim>\<open>long\<close> (64 bits) is clamped and \<^verbatim>\<open>errno\<close> is set to \<^verbatim>\<open>ERANGE\<close>: the
  second component. Otherwise \<^verbatim>\<open>errno\<close> is left as it was; this is ISO C and the GNU C
  library (POSIX lets an implementation set \<^verbatim>\<open>EINVAL\<close> when it finds no digit, and does
  not require it).
\<close>

definition isspace :: "char \<Rightarrow> bool" where
  "isspace c = (c = CHR '' '' \<or> c = CHR 0x09 \<or> c = CHR 0x0A \<or> c = CHR 0x0B \<or> c = CHR 0x0C
     \<or> c = CHR 0x0D)"

definition isdigit :: "char \<Rightarrow> bool" where
  "isdigit c = (48 \<le> (of_char c :: nat) \<and> (of_char c :: nat) \<le> 57)"

fun digits_val :: "int \<Rightarrow> string \<Rightarrow> int" where
  "digits_val acc [] = acc"
| "digits_val acc (c # cs) = digits_val (10 * acc + (of_char c - 48)) cs"

definition LONG_MAX :: int where
  "LONG_MAX = 2 ^ 63 - 1"

definition LONG_MIN :: int where
  "LONG_MIN = - (2 ^ 63)"

definition strtol :: "string \<Rightarrow> int \<times> bool" where
  "strtol nptr =
     (let s = dropWhile isspace nptr;
          neg = (case s of [] \<Rightarrow> False | c # _ \<Rightarrow> c = CHR ''-'');
          s' = (case s of [] \<Rightarrow> [] | c # r \<Rightarrow> if c = CHR ''-'' \<or> c = CHR ''+'' then r else s);
          v = digits_val 0 (takeWhile isdigit s');
          l = (if neg then - v else v)
      in if LONG_MAX < l then (LONG_MAX, True)
         else if l < LONG_MIN then (LONG_MIN, True)
         else (l, False))"

text \<open>
  \<^verbatim>\<open>LINE_MAX\<close> comes from \<^verbatim>\<open><climits>\<close>, not from the repository: it is the
  parameter \<open>lmax\<close> of the model.

  A connection is the list of the chunks that the successive calls
  \<^verbatim>\<open>read(msg_d, buf, LINE_MAX - 1)\<close> return before the peer closes and \<^verbatim>\<open>read\<close>
  returns 0; such a chunk has between 1 and \<open>lmax - 1\<close> bytes. A connection closed with
  nothing sent is the empty list.
\<close>

definition chunk_ok :: "nat \<Rightarrow> string \<Rightarrow> bool" where
  "chunk_ok lmax chunk = (0 < length chunk \<and> length chunk < lmax)"

text \<open>
  \<^verbatim>\<open>buf\<close> is all zero before every \<^verbatim>\<open>read\<close> (its initialiser, then the
  \<^verbatim>\<open>memset\<close> that ends each iteration), so after a \<^verbatim>\<open>read\<close> it holds the chunk
  followed by zeros.
\<close>

definition read_buf :: "nat \<Rightarrow> string \<Rightarrow> string" where
  "read_buf lmax chunk = chunk @ replicate (lmax - length chunk) NUL"

text \<open>
  \<^verbatim>\<open>for (; buf_start < LINE_MAX && buf[buf_start] != ':'; buf_start++);\<close> from
  \<^verbatim>\<open>buf_start = 0\<close>: the index of the first colon of the buffer, or its size.
\<close>

fun scan_colon :: "string \<Rightarrow> nat" where
  "scan_colon [] = 0"
| "scan_colon (c # buf) = (if c = CHR '':'' then 0 else Suc (scan_colon buf))"

text \<open>
  The \<^verbatim>\<open>while ((bytes = read(...)) > 0)\<close> loop, on the chunks still to come, with the
  locals \<^verbatim>\<open>first_read\<close>, \<^verbatim>\<open>msg\<close> and \<^verbatim>\<open>level\<close>. Its result is the pair that
  \<^verbatim>\<open>start\<close> pushes after the loop. \<^verbatim>\<open>errno\<close> is 0 when the loop starts
  (\<^verbatim>\<open>start\<close> exits right after \<^verbatim>\<open>accept\<close> otherwise), so \<^verbatim>\<open>assert(errno == 0)\<close>
  fails exactly when \<^verbatim>\<open>strtol\<close> sets it.
\<close>

fun read_loop :: "nat \<Rightarrow> bool \<Rightarrow> string \<Rightarrow> log_t \<Rightarrow> string list \<Rightarrow> fatal + log" where
  "read_loop lmax first_read msg level [] = Inr (level, msg)"
| "read_loop lmax first_read msg level (chunk # chunks) =
     (let buf = read_buf lmax chunk in
      if first_read then
        (let buf_start = scan_colon buf in
         if buf_start = lmax then Inl (Exit EXIT_FAILURE)
         else
           (let buf' = buf[buf_start := NUL];
                l = fst (strtol (c_str buf'));
                erange = snd (strtol (c_str buf'))
            in if erange then Inl Abort
               else if \<not> (0 \<le> l \<and> l \<le> 3) then Inl Abort
               else read_loop lmax False (msg @ c_str (drop (Suc buf_start) buf'))
                      (word_of_int l) chunks))
      else read_loop lmax False (msg @ c_str buf) level chunks)"

section \<open>Writing a log (server.cpp: commitLog)\<close>

text \<open>
  \<^verbatim>\<open>#define STDOUT STDOUT_FILENO\<close>, the descriptor 1 of \<^verbatim>\<open><unistd.h>\<close>. The
  escape sequences are the literals of \<^verbatim>\<open>commitLog\<close>, with \<^verbatim>\<open>\e\<close> the byte 0x1B.
\<close>

definition STDOUT :: int where
  "STDOUT = 1"

definition reset :: string where
  "reset = ESC # ''[0m''"

definition cyan :: string where
  "cyan = ESC # ''[0;36m''"

definition yellow :: string where
  "yellow = ESC # ''[0;93m''"

definition red :: string where
  "red = ESC # ''[0;91m''"

text \<open>The lambda \<^verbatim>\<open>apply\<close> of \<^verbatim>\<open>commitLog\<close>.\<close>

definition apply_colour :: "string \<Rightarrow> string \<Rightarrow> string" where
  "apply_colour colour message = colour @ message @ reset"

text \<open>
  The \<^verbatim>\<open>switch (level)\<close> of \<^verbatim>\<open>commitLog\<close>: the prefix of the level and, for the
  terminal, its colour; any other level prints a diagnostic and exits. \<open>to_stdout\<close> is
  the test \<^verbatim>\<open>file == STDOUT\<close> (\<^verbatim>\<open>file == stdout\<close> in \<^verbatim>\<open>service.cpp\<close>, whose
  \<^verbatim>\<open>switch\<close> is the same).
\<close>

definition switch_level :: "bool \<Rightarrow> log_t \<Rightarrow> string \<Rightarrow> fatal + string" where
  "switch_level to_stdout level message =
     (if level = HEADER then
        Inr (if to_stdout then apply_colour reset message else message)
      else if level = INFO then
        (let message = ''Info: '' @ message in
         Inr (if to_stdout then apply_colour cyan message else message))
      else if level = DEBUG then
        (let message = ''Debug: '' @ message in
         Inr (if to_stdout then apply_colour yellow message else message))
      else if level = ERROR then
        (let message = ''Error: '' @ message in
         Inr (if to_stdout then apply_colour red message else message))
      else Inl (Exit EXIT_FAILURE))"

text \<open>
  \<^verbatim>\<open>commitLog\<close> up to the newline test: the \<^verbatim>\<open>switch\<close>, then one more reset for the
  terminal. The result is \<^verbatim>\<open>message\<close> as the test
  \<^verbatim>\<open>message[message.size() - 1] != '\n'\<close> finds it.
\<close>

definition format_message :: "int \<Rightarrow> log_t \<Rightarrow> string \<Rightarrow> fatal + string" where
  "format_message file level message =
     (case switch_level (file = STDOUT) level message of
        Inl f \<Rightarrow> Inl f
      | Inr message \<Rightarrow> Inr (if file = STDOUT then message @ reset else message))"

text \<open>
  The end of \<^verbatim>\<open>commitLog\<close>: the newline, and the one call
  \<^verbatim>\<open>write(file, msg, message.size())\<close>, whose buffer is the result.
  \<^verbatim>\<open>message[message.size() - 1]\<close> on an empty string indexes past the end, which is
  undefined.
\<close>

definition write_line :: "string \<Rightarrow> fatal + string" where
  "write_line message =
     (if message = [] then Inl Undefined
      else if last message \<noteq> LF then Inr (message @ [LF])
      else Inr message)"

definition commitLog :: "int \<Rightarrow> log_t \<Rightarrow> string \<Rightarrow> fatal + string" where
  "commitLog file level message =
     (case format_message file level message of
        Inl f \<Rightarrow> Inl f
      | Inr message \<Rightarrow> write_line message)"

section \<open>The older server (service.cpp: commitLog)\<close>

text \<open>
  \<^verbatim>\<open>service.cpp\<close> holds the server in one file, with a \<^verbatim>\<open>FILE *\<close> for the sink
  (\<open>to_stdout\<close> is its test \<^verbatim>\<open>file == stdout\<close>). Its \<^verbatim>\<open>commitLog\<close> has the same
  \<^verbatim>\<open>switch\<close> and the same reset for the terminal, then passes the message to
  \<^verbatim>\<open>fwrite\<close> as it is, in one call.
\<close>

definition commitLog_service :: "bool \<Rightarrow> log_t \<Rightarrow> string \<Rightarrow> fatal + string" where
  "commitLog_service to_stdout level message =
     (case switch_level to_stdout level message of
        Inl f \<Rightarrow> Inl f
      | Inr message \<Rightarrow> Inr (if to_stdout then message @ reset else message))"

section \<open>The service (server.cpp: Logger, start, processQueue)\<close>

text \<open>
  \<open>file_fd\<close> and \<open>logqueue\<close> are the fields \<^verbatim>\<open>file\<close> and \<^verbatim>\<open>logqueue\<close> of
  \<^verbatim>\<open>class Logger\<close>; \<open>sink\<close> is the list of
  the buffers that \<^verbatim>\<open>commitLog\<close> has passed to \<^verbatim>\<open>write(file, ...)\<close>, oldest first.
  What \<^verbatim>\<open>printf\<close> prints before an exit is not in \<open>sink\<close>; \<open>observed\<close> below adds
  it where it reaches the same descriptor.
\<close>

record logger =
  file_fd :: int
  logqueue :: "log list"
  sink :: "string list"

definition header :: string where
  "header = replicate 79 CHR ''-'' @ [LF] @ replicate 34 CHR '' '' @ ''New Log'' @ [LF]
     @ replicate 79 CHR ''-'' @ [LF]"

text \<open>
  The constructor, once the sink is open and the socket listens (each failure before that
  exits): it pushes the header onto the new, empty queue, starts the thread of
  \<^verbatim>\<open>processQueue\<close> and calls \<^verbatim>\<open>start\<close>. This is the state in which both loops start.
\<close>

definition Logger :: "int \<Rightarrow> logger" where
  "Logger fd = \<lparr>file_fd = fd, logqueue = pushQueue (HEADER, header) [], sink = []\<rparr>"

text \<open>
  One iteration of the loop of \<^verbatim>\<open>start\<close>: \<^verbatim>\<open>accept\<close>, the read loop, \<^verbatim>\<open>close\<close>,
  \<^verbatim>\<open>pushQueue\<close>. \<open>level\<close> is the value that the uninitialised local \<^verbatim>\<open>level\<close> happens
  to hold.
\<close>

definition accept_one :: "nat \<Rightarrow> log_t \<Rightarrow> string list \<Rightarrow> logger \<Rightarrow> fatal + logger" where
  "accept_one lmax level chunks s =
     (case read_loop lmax True [] level chunks of
        Inl f \<Rightarrow> Inl f
      | Inr l \<Rightarrow> Inr (s\<lparr>logqueue := pushQueue l (logqueue s)\<rparr>))"

text \<open>
  One turn of the loop of \<^verbatim>\<open>processQueue\<close>: on an empty queue it spins; otherwise it
  pops a log and commits it.
\<close>

definition process_one :: "logger \<Rightarrow> fatal + logger" where
  "process_one s =
     (case popQueue (logqueue s) of
        None \<Rightarrow> Inr s
      | Some (l, rest) \<Rightarrow>
          (case commitLog (file_fd s) (fst l) (snd l) of
             Inl f \<Rightarrow> Inl f
           | Inr out \<Rightarrow> Inr (s\<lparr>logqueue := rest, sink := sink s @ [out]\<rparr>)))"

text \<open>
  An execution is an interleaving of the two threads: connections handled by the acceptor
  (\<^verbatim>\<open>accept\<close> may also fail, which exits) and turns of the committer. It stops at the
  first fatal step, in the state reached before that step.
\<close>

datatype event = Connection log_t "string list" | Accept_failed | Commit

fun step :: "nat \<Rightarrow> event \<Rightarrow> logger \<Rightarrow> fatal + logger" where
  "step lmax (Connection level chunks) s = accept_one lmax level chunks s"
| "step lmax Accept_failed s = Inl (Exit EXIT_FAILURE)"
| "step lmax Commit s = process_one s"

fun run :: "nat \<Rightarrow> event list \<Rightarrow> logger \<Rightarrow> logger \<times> fatal option" where
  "run lmax [] s = (s, None)"
| "run lmax (e # es) s =
     (case step lmax e s of
        Inl f \<Rightarrow> (s, Some f)
      | Inr s' \<Rightarrow> run lmax es s')"

text \<open>
  The state of the sink with respect to the header: either nothing is written yet and the
  header is the front of the queue, or the first buffer written is the committed header.
\<close>

definition header_written :: "int \<Rightarrow> string" where
  "header_written fd = (if fd = STDOUT then reset @ header @ reset @ reset @ [LF] else header)"

definition header_first :: "int \<Rightarrow> logger \<Rightarrow> bool" where
  "header_first fd s =
     (file_fd s = fd \<and>
      ((sink s = [] \<and> (\<exists>q. logqueue s = (HEADER, header) # q)) \<or>
       (\<exists>w. sink s = header_written fd # w)))"



section \<open>The client (src/client.cpp: format_log, writeLog)\<close>

text \<open>
  \<^verbatim>\<open>std::to_string(level)\<close>: \<^verbatim>\<open>level\<close> is a \<^verbatim>\<open>uint8_t\<close>, promoted to \<^verbatim>\<open>int\<close>; the
  result is its decimal digits.
\<close>

fun to_string :: "nat \<Rightarrow> string" where
  "to_string n =
     (if n < 10 then [char_of (48 + n)]
      else to_string (n div 10) @ [char_of (48 + n mod 10)])"

declare to_string.simps [simp del]

definition format_log :: "log_t \<Rightarrow> string \<Rightarrow> string" where
  "format_log level log = to_string (unat level) @ '':'' @ log"

text \<open>
  What \<^verbatim>\<open>writeLog\<close> meets: \<^verbatim>\<open>errno\<close> after \<^verbatim>\<open>socket\<close>, and the results of
  \<^verbatim>\<open>connect\<close> and \<^verbatim>\<open>write\<close>.
\<close>

record client_env =
  socket_errno :: int
  connect_ret :: int
  write_ret :: int

text \<open>
  \<^verbatim>\<open>writeLog\<close> returns its \<^verbatim>\<open>int\<close> and, when it reaches
  \<^verbatim>\<open>write(fd, log.c_str(), log.size() + 1)\<close>, the bytes that this one call hands over:
  the first \<^verbatim>\<open>log.size() + 1\<close> bytes at \<^verbatim>\<open>log.c_str()\<close>, where the formatted
  \<^verbatim>\<open>log\<close> is followed by the NUL that ends it.
\<close>

definition writeLog :: "client_env \<Rightarrow> log_t \<Rightarrow> string \<Rightarrow> int \<times> string option" where
  "writeLog env level log =
     (if socket_errno env \<noteq> 0 then (- 1, None)
      else if connect_ret env < 0 then (- 1, None)
      else
        (let log = format_log level log;
             bytes = take (length log + 1) (log @ [NUL])
         in if write_ret env < 0 then (- 1, Some bytes) else (0, Some bytes)))"

section \<open>Properties of the queue\<close>

lemma run_queue_conserves:
  "fst (run_queue ops popped q) @ snd (run_queue ops popped q) = popped @ q @ pushed ops"
proof (induction ops popped q rule: run_queue.induct)
  case (1 popped logqueue)
  show ?case by simp
next
  case (2 l ops popped logqueue)
  then show ?case by (simp add: pushQueue_def)
next
  case (3 ops popped logqueue)
  then show ?case by (cases logqueue) (simp_all add: popQueue_def)
qed

text \<open>
  C4. On a non-empty queue \<open>popQueue\<close> removes and returns the head log. For every
  sequence of interleaved pushes and pops, started on any queue, the logs popped followed
  by the logs still queued are exactly the logs of the initial queue followed by the logs
  pushed, in push order: the pops return the logs in insertion order, none is lost and none
  is returned twice.
\<close>

theorem queue_fifo:
  "popQueue (l # q) = Some (l, q) \<and>
   fst (run_queue ops [] q) @ snd (run_queue ops [] q) = q @ pushed ops"
  using run_queue_conserves [of ops "[]" q] by (simp add: popQueue_def)

text \<open>Two pushes, a pop, a push and a pop, on the empty queue.\<close>

theorem queue_fifo_witness:
  "run_queue [Push (INFO, ''a''), Push (ERROR, ''b''), Pop, Push (DEBUG, ''c''), Pop] [] []
     = ([(INFO, ''a''), (ERROR, ''b'')], [(DEBUG, ''c'')])"
proof -
  let ?ops = "[Push (INFO, ''a''), Push (ERROR, ''b''), Pop, Push (DEBUG, ''c''), Pop]"
  have "snd (run_queue ?ops [] []) = [(DEBUG, ''c'')]"
    by (simp add: pushQueue_def popQueue_def)
  then show ?thesis
    using queue_fifo [of _ "[]" ?ops] by (simp add: prod_eq_iff)
qed

section \<open>Properties of the read loop\<close>

lemma scan_colon_le: "scan_colon buf \<le> length buf"
  by (induction buf) auto

lemma scan_colon_less: "CHR '':'' \<in> set buf \<Longrightarrow> scan_colon buf < length buf"
  by (induction buf) auto

lemma scan_colon_none: "CHR '':'' \<notin> set buf \<Longrightarrow> scan_colon buf = length buf"
  by (induction buf) auto

lemma scan_colon_append:
  "scan_colon (xs @ ys) = (if CHR '':'' \<in> set xs then scan_colon xs else length xs + scan_colon ys)"
  by (induction xs) auto

lemma scan_colon_nth: "CHR '':'' \<in> set buf \<Longrightarrow> buf ! scan_colon buf = CHR '':''"
  by (induction buf) auto

lemma scan_colon_first: "CHR '':'' \<notin> set (take (scan_colon buf) buf)"
  by (induction buf) auto

lemma scan_colon_eqI:
  "i < length buf \<Longrightarrow> buf ! i = CHR '':'' \<Longrightarrow> CHR '':'' \<notin> set (take i buf) \<Longrightarrow> scan_colon buf = i"
proof (induction buf arbitrary: i)
  case Nil
  then show ?case by simp
next
  case (Cons c buf)
  then show ?case by (cases i) auto
qed

lemma scan_colon_read_buf:
  "length chunk \<le> lmax \<Longrightarrow>
   scan_colon (read_buf lmax chunk) = (if CHR '':'' \<in> set chunk then scan_colon chunk else lmax)"
  by (simp add: read_buf_def scan_colon_append scan_colon_none)

lemma c_str_append_NUL: "c_str (xs @ NUL # ys) = c_str xs"
  by (induction xs) (auto simp: c_str_def)

lemma c_str_zeros: "c_str (xs @ replicate n NUL) = c_str xs"
  by (induction xs) (auto simp: c_str_def takeWhile_eq_Nil_iff)

lemma c_str_read_buf: "c_str (read_buf lmax chunk) = c_str chunk"
  by (simp add: read_buf_def c_str_zeros)

lemma c_str_no_NUL: "NUL \<notin> set xs \<Longrightarrow> c_str xs = xs"
  by (auto simp: c_str_def)

lemma c_str_update:
  "i < length buf \<Longrightarrow> c_str (buf[i := NUL]) = c_str (take i buf)"
  by (simp add: upd_conv_take_nth_drop c_str_append_NUL)

lemma c_str_drop_read_buf:
  "c_str (drop k (read_buf lmax chunk)) = c_str (drop k chunk)"
  by (simp add: read_buf_def c_str_zeros)

lemma read_loop_rest:
  "read_loop lmax False msg level chunks = Inr (level, msg @ concat (map c_str chunks))"
  by (induction chunks arbitrary: msg) (simp_all add: c_str_read_buf)

lemma read_loop_first:
  assumes "chunk_ok lmax chunk"
  shows "read_loop lmax True msg level (chunk # chunks) =
     (if CHR '':'' \<notin> set chunk then Inl (Exit EXIT_FAILURE)
      else let i = scan_colon chunk; r = strtol (c_str (take i chunk)) in
        if snd r then Inl Abort
        else if \<not> (0 \<le> fst r \<and> fst r \<le> 3) then Inl Abort
        else Inr (word_of_int (fst r), msg @ c_str (drop (Suc i) chunk) @ concat (map c_str chunks)))"
proof (cases "CHR '':'' \<in> set chunk")
  case False
  with assms show ?thesis
    by (simp add: chunk_ok_def scan_colon_read_buf)
next
  case True
  let ?i = "scan_colon chunk"
  from assms have len: "length chunk < lmax" by (simp add: chunk_ok_def)
  from True have i: "?i < length chunk" by (rule scan_colon_less)
  have scan: "scan_colon (read_buf lmax chunk) = ?i"
    using True len by (simp add: scan_colon_read_buf)
  have ilen: "?i < length (read_buf lmax chunk)"
    using i by (simp add: read_buf_def)
  have pre: "c_str ((read_buf lmax chunk)[?i := NUL]) = c_str (take ?i chunk)"
    using ilen i by (simp add: c_str_update) (simp add: read_buf_def)
  from i len have ne: "?i \<noteq> lmax" by simp
  show ?thesis
    using True ne by (simp add: scan pre c_str_drop_read_buf read_loop_rest Let_def)
qed

lemmas strtol_eval = strtol_def isspace_def isdigit_def LONG_MAX_def LONG_MIN_def Let_def

text \<open>
  C1. A connection whose peer closes after sending nothing: the first \<^verbatim>\<open>read\<close> returns
  0, the loop body never runs, and \<^verbatim>\<open>start\<close> pushes the pair of the uninitialised
  \<^verbatim>\<open>level\<close> and the empty message. The service does not stop and a log with an empty
  message is enqueued.
\<close>

theorem empty_connection_pushed:
  "read_loop lmax True [] level [] = Inr (level, []) \<and>
   accept_one lmax level [] s = Inr (s\<lparr>logqueue := logqueue s @ [(level, [])]\<rparr>) \<and>
   run lmax [Connection level []] s = (s\<lparr>logqueue := logqueue s @ [(level, [])]\<rparr>, None)"
  by (simp add: accept_one_def pushQueue_def)

text \<open>
  C9. When the first chunk of a connection holds no colon, the scan reaches
  \<^verbatim>\<open>LINE_MAX\<close> and the process exits with \<^verbatim>\<open>EXIT_FAILURE\<close>, which is not 0; the
  execution stops in the state it had before the connection, so nothing of that connection
  is enqueued.
\<close>

theorem no_colon_fatal:
  assumes "chunk_ok lmax chunk" and "CHR '':'' \<notin> set chunk"
  shows "read_loop lmax True [] level (chunk # chunks) = Inl (Exit EXIT_FAILURE) \<and>
         EXIT_FAILURE \<noteq> 0 \<and>
         run lmax (Connection level (chunk # chunks) # es) s = (s, Some (Exit EXIT_FAILURE))"
proof -
  have "read_loop lmax True [] level (chunk # chunks) = Inl (Exit EXIT_FAILURE)"
    using assms by (simp add: read_loop_first del: read_loop.simps)
  then show ?thesis
    by (simp add: accept_one_def EXIT_FAILURE_def del: read_loop.simps)
qed

text \<open>A first chunk without a colon, followed by a chunk that would be a good frame.\<close>

theorem no_colon_fatal_witness:
  "chunk_ok 4096 ''no delimiter'' \<and> CHR '':'' \<notin> set ''no delimiter'' \<and>
   read_loop 4096 True [] 0 [''no delimiter'', ''1:x''] = Inl (Exit EXIT_FAILURE) \<and>
   run 4096 [Connection 0 [''no delimiter'', ''1:x''], Commit] (Logger 3)
     = (Logger 3, Some (Exit EXIT_FAILURE))"
proof -
  have ok: "chunk_ok 4096 ''no delimiter''" by (simp add: chunk_ok_def)
  have nc: "CHR '':'' \<notin> set ''no delimiter''" by simp
  show ?thesis
    using ok nc no_colon_fatal [OF ok nc, of 0 "[''1:x'']" "[Commit]" "Logger 3"] by simp
qed

text \<open>
  C2. A prefix that is not a number is not rejected: for the frame \<^verbatim>\<open>abc:test\<close>,
  \<^verbatim>\<open>strtol\<close> finds no digit, returns 0 and leaves \<^verbatim>\<open>errno\<close> at 0, so
  \<^verbatim>\<open>assert(errno == 0)\<close> and \<^verbatim>\<open>assert(l >= 0 && l <= 3)\<close> both hold and the frame is
  enqueued as a HEADER log.
\<close>

theorem non_numeric_prefix_accepted:
  "accept_one 4096 7 [''abc:test''] (Logger 3)
     = Inr \<lparr>file_fd = 3, logqueue = [(HEADER, header), (HEADER, ''test'')], sink = []\<rparr>"
proof -
  have ok: "chunk_ok 4096 ''abc:test''" by (simp add: chunk_ok_def)
  show ?thesis
    by (simp add: accept_one_def read_loop_first [OF ok] strtol_eval c_str_def
        Logger_def pushQueue_def HEADER_def del: read_loop.simps)
qed

text \<open>
  What the assertions do reject: when \<^verbatim>\<open>strtol\<close> reads from the bytes before the first
  colon of the first chunk a value below 0 or above 3, or overflows, an assertion fails,
  the process aborts and the execution stops in the state it had before the connection, so
  nothing of that connection is enqueued.
\<close>

theorem bad_severity_fatal:
  assumes "chunk_ok lmax chunk" and "CHR '':'' \<in> set chunk"
    and "strtol (c_str (take (scan_colon chunk) chunk)) = (l, erange)"
    and "erange \<or> l < 0 \<or> 3 < l"
  shows "read_loop lmax True [] level (chunk # chunks) = Inl Abort \<and>
         run lmax (Connection level (chunk # chunks) # es) s = (s, Some Abort)"
proof -
  from assms(3,4) have "snd (strtol (c_str (take (scan_colon chunk) chunk))) \<or>
      \<not> (0 \<le> fst (strtol (c_str (take (scan_colon chunk) chunk))) \<and>
         fst (strtol (c_str (take (scan_colon chunk) chunk))) \<le> 3)"
    by auto
  then have "read_loop lmax True [] level (chunk # chunks) = Inl Abort"
    using assms(1,2) by (auto simp: read_loop_first Let_def simp del: read_loop.simps)
  then show ?thesis
    by (simp add: accept_one_def del: read_loop.simps)
qed

text \<open>The frame \<^verbatim>\<open>9:test\<close>.\<close>

theorem bad_severity_fatal_witness:
  "chunk_ok 4096 ''9:test'' \<and> CHR '':'' \<in> set ''9:test'' \<and>
   strtol (c_str (take (scan_colon ''9:test'') ''9:test'')) = (9, False) \<and>
   read_loop 4096 True [] 0 [''9:test''] = Inl Abort \<and>
   run 4096 [Connection 0 [''9:test'']] (Logger 3) = (Logger 3, Some Abort)"
proof -
  have ok: "chunk_ok 4096 ''9:test''" by (simp add: chunk_ok_def)
  have colon: "CHR '':'' \<in> set ''9:test''" by simp
  have dec: "strtol (c_str (take (scan_colon ''9:test'') ''9:test'')) = (9, False)"
    by (simp add: strtol_eval c_str_def)
  have bad: "False \<or> (9::int) < 0 \<or> (3::int) < 9" by simp
  show ?thesis
    using ok colon dec bad_severity_fatal [OF ok colon dec bad, of 0 "[]" "[]" "Logger 3"]
    by simp
qed

text \<open>
  C3. A client can produce a HEADER log: the header comment gives the level of a frame as
  one of INFO, DEBUG and ERROR, but the assertion is \<^verbatim>\<open>l >= 0 && l <= 3\<close>, so for the
  frame \<^verbatim>\<open>0:forged\<close> both assertions hold and the read loop returns the log
  (HEADER, \<^verbatim>\<open>forged\<close>), which \<^verbatim>\<open>start\<close> pushes.
\<close>

theorem digit_zero_accepted:
  "read_loop 4096 True [] 7 [''0:forged''] = Inr (HEADER, ''forged'')"
proof -
  have ok: "chunk_ok 4096 ''0:forged''" by (simp add: chunk_ok_def)
  show ?thesis
    by (simp add: read_loop_first [OF ok] strtol_eval c_str_def HEADER_def del: read_loop.simps)
qed

lemma word_of_int_level:
  "0 \<le> l \<Longrightarrow> l \<le> 3 \<Longrightarrow> (word_of_int l :: log_t) \<in> {HEADER, INFO, DEBUG, ERROR}"
proof -
  assume "0 \<le> l" "l \<le> 3"
  then have "l = 0 \<or> l = 1 \<or> l = 2 \<or> l = 3" by arith
  then show ?thesis by (auto simp: HEADER_def INFO_def DEBUG_def ERROR_def)
qed

text \<open>
  The range that the assertion does enforce: every log that the read loop produces from a
  connection that sent at least one chunk has a level from 0 to 3. Its lower bound lets
  every frame that starts with \<^verbatim>\<open>0:\<close> through as a HEADER log.
\<close>

theorem parsed_level_in_range:
  assumes "chunk_ok lmax chunk"
  shows "(read_loop lmax True [] level (chunk # chunks) = Inr (lv, msg)
            \<longrightarrow> lv \<in> {HEADER, INFO, DEBUG, ERROR}) \<and>
         (chunk = ''0:'' @ m
            \<longrightarrow> read_loop lmax True [] level (chunk # chunks)
                  = Inr (HEADER, c_str m @ concat (map c_str chunks)))"
proof
  show "read_loop lmax True [] level (chunk # chunks) = Inr (lv, msg)
            \<longrightarrow> lv \<in> {HEADER, INFO, DEBUG, ERROR}"
    using word_of_int_level
    by (auto simp: read_loop_first [OF assms] Let_def simp del: read_loop.simps
        split: if_splits)
next
  show "chunk = ''0:'' @ m
            \<longrightarrow> read_loop lmax True [] level (chunk # chunks)
                  = Inr (HEADER, c_str m @ concat (map c_str chunks))"
  proof
    assume c: "chunk = ''0:'' @ m"
    have "chunk_ok lmax (''0:'' @ m)" using assms c by simp
    then show "read_loop lmax True [] level (chunk # chunks)
                  = Inr (HEADER, c_str m @ concat (map c_str chunks))"
      unfolding c
      by (simp add: read_loop_first strtol_eval c_str_def HEADER_def del: read_loop.simps)
  qed
qed

text \<open>The frame \<^verbatim>\<open>0:forged\<close>, followed by a second chunk.\<close>

theorem parsed_level_in_range_witness:
  "chunk_ok 4096 ''0:forged'' \<and>
   read_loop 4096 True [] 7 [''0:forged'', ''!''] = Inr (HEADER, ''forged!'') \<and>
   HEADER \<in> {HEADER, INFO, DEBUG, ERROR}"
proof -
  have ok: "chunk_ok 4096 ''0:forged''" by (simp add: chunk_ok_def)
  have "read_loop 4096 True [] 7 [''0:forged'', ''!''] = Inr (HEADER, ''forged!'')"
    using parsed_level_in_range [OF ok, of 7 "[''!'']" HEADER "''forged!''" "''forged''"]
    by (simp add: c_str_def del: read_loop.simps)
  with ok show ?thesis by simp
qed

text \<open>
  C7, as stated, fails: each chunk is appended as a C string, so the bytes of a chunk from
  its first NUL on are dropped. Here the bytes after the colon are
  \<^verbatim>\<open>ab\0cd\<close> and \<^verbatim>\<open>ef\0\<close>, and the message is \<^verbatim>\<open>abef\<close>.
\<close>

theorem bytes_after_NUL_dropped:
  "read_loop 4096 True [] 7 [''2:ab'' @ [NUL] @ ''cd'', ''ef'' @ [NUL]] = Inr (DEBUG, ''abef'') \<and>
   drop 2 (''2:ab'' @ [NUL] @ ''cd'') @ ''ef'' @ [NUL] = ''ab'' @ [NUL] @ ''cdef'' @ [NUL]"
proof -
  have "read_loop 4096 True [] 7 [''2:ab'' @ [NUL] @ ''cd'', ''ef'' @ [NUL]] = Inr (DEBUG, ''abef'')"
    by code_simp
  then show ?thesis by simp
qed

text \<open>
  C7, amended. When the first chunk has its first colon at index \<open>i\<close> and the bytes before
  it decode to a level from 0 to 3, the message of the log is the bytes of the first chunk
  after the colon up to its first NUL, followed by the bytes of every later chunk up to
  that chunk's first NUL, in order. When no chunk holds a NUL, the message is all the
  bytes after the colon and all the bytes of the later chunks.
\<close>

theorem message_is_c_strings:
  assumes "chunk_ok lmax chunk"
    and "i < length chunk" and "chunk ! i = CHR '':''" and "CHR '':'' \<notin> set (take i chunk)"
    and "strtol (c_str (take i chunk)) = (l, False)" and "0 \<le> l" and "l \<le> 3"
  shows "read_loop lmax True [] level (chunk # chunks)
           = Inr (word_of_int l, c_str (drop (Suc i) chunk) @ concat (map c_str chunks)) \<and>
         ((\<forall>c \<in> set (chunk # chunks). NUL \<notin> set c)
            \<longrightarrow> read_loop lmax True [] level (chunk # chunks)
                  = Inr (word_of_int l, drop (Suc i) chunk @ concat chunks))"
proof -
  have i: "scan_colon chunk = i"
    using assms(2-4) by (rule scan_colon_eqI)
  have colon: "CHR '':'' \<in> set chunk"
    using assms(2,3) by (metis nth_mem)
  have r: "read_loop lmax True [] level (chunk # chunks)
           = Inr (word_of_int l, c_str (drop (Suc i) chunk) @ concat (map c_str chunks))"
    using assms(5-7) colon by (simp add: read_loop_first [OF assms(1)] i del: read_loop.simps)
  have "c_str (drop (Suc i) chunk) @ concat (map c_str chunks) = drop (Suc i) chunk @ concat chunks"
    if "\<forall>c \<in> set (chunk # chunks). NUL \<notin> set c"
  proof -
    from that have "NUL \<notin> set (drop (Suc i) chunk)"
      by (auto dest: in_set_dropD)
    then have a: "c_str (drop (Suc i) chunk) = drop (Suc i) chunk" by (rule c_str_no_NUL)
    from that have "map c_str chunks = chunks"
      by (simp add: c_str_no_NUL map_idI)
    with a show ?thesis by simp
  qed
  with r show ?thesis by simp
qed

text \<open>The frame \<^verbatim>\<open>3:disk full\<close>, read in two chunks.\<close>

theorem message_is_c_strings_witness:
  "chunk_ok 4096 ''3:disk '' \<and> (1::nat) < length ''3:disk '' \<and> ''3:disk '' ! 1 = CHR '':'' \<and>
   CHR '':'' \<notin> set (take 1 ''3:disk '') \<and> strtol (c_str (take 1 ''3:disk '')) = (3, False) \<and>
   NUL \<notin> set ''3:disk '' \<and> NUL \<notin> set ''full'' \<and>
   read_loop 4096 True [] 7 [''3:disk '', ''full''] = Inr (ERROR, ''disk full'')"
proof -
  have ok: "chunk_ok 4096 ''3:disk ''" by (simp add: chunk_ok_def)
  have len: "(1::nat) < length ''3:disk ''" by simp
  have at: "''3:disk '' ! 1 = CHR '':''" by simp
  have first: "CHR '':'' \<notin> set (take 1 ''3:disk '')" by simp
  have dec: "strtol (c_str (take 1 ''3:disk '')) = (3, False)"
    by (simp add: strtol_eval c_str_def)
  have nn: "\<forall>c \<in> set [''3:disk '', ''full'']. NUL \<notin> set c" by simp
  have "read_loop 4096 True [] 7 [''3:disk '', ''full''] = Inr (ERROR, ''disk full'')"
    using message_is_c_strings [OF ok len at first dec, of 7 "[''full'']"] nn
    by (simp add: ERROR_def c_str_def del: read_loop.simps)
  with ok len at first dec show ?thesis by simp
qed

section \<open>Properties of commitLog\<close>




text \<open>
  C6, as stated, fails: the \<^verbatim>\<open>commitLog\<close> of \<^verbatim>\<open>service.cpp\<close> has no newline step,
  and the log (INFO, \<^verbatim>\<open>hello\<close>) is written to a file as \<^verbatim>\<open>Info: hello\<close>, with no
  newline at its end.
\<close>

theorem service_appends_no_newline:
  "commitLog_service False INFO ''hello'' = Inr ''Info: hello'' \<and>
   last ''Info: hello'' \<noteq> LF"
  by (simp add: commitLog_service_def switch_level_def INFO_def HEADER_def)

lemma format_message_file:
  assumes "level \<in> {HEADER, INFO, DEBUG, ERROR}" and "file \<noteq> STDOUT"
  shows "\<exists>p. format_message file level message = Inr (p @ message) \<and> (level \<noteq> HEADER \<longrightarrow> p \<noteq> [])"
  using assms
  by (auto simp: format_message_def switch_level_def Let_def HEADER_def INFO_def DEBUG_def
      ERROR_def)

lemma commitLog_service_format:
  "commitLog_service (file = STDOUT) level message = format_message file level message"
  by (simp add: commitLog_service_def format_message_def)

text \<open>
  C6, amended. In \<^verbatim>\<open>server.cpp\<close>, on a file, for a level from 0 to 3 and a formatted
  message (the prefix of the level and the message) that is not empty, the buffer written
  ends in a newline: it is the formatted message, followed by a newline exactly when the
  formatted message does not end in one already, so a message that ends in a newline gets
  no second one. The \<^verbatim>\<open>commitLog\<close> of \<^verbatim>\<open>service.cpp\<close> writes the formatted message
  as it is, on a file and on the terminal, and appends no newline.
\<close>

theorem newline_terminated:
  assumes "level \<in> {HEADER, INFO, DEBUG, ERROR}"
    and "file \<noteq> STDOUT"
    and "level \<noteq> HEADER \<or> message \<noteq> []"
  shows "\<exists>m out. format_message file level message = Inr m \<and>
           commitLog file level message = Inr out \<and>
           last out = LF \<and>
           out = (if last m = LF then m else m @ [LF]) \<and>
           (message \<noteq> [] \<and> last message = LF \<longrightarrow> out = m) \<and>
           commitLog_service False level message = Inr m \<and>
           commitLog_service (fd = STDOUT) level message = format_message fd level message"
proof -
  obtain p where m: "format_message file level message = Inr (p @ message)"
    and p: "level \<noteq> HEADER \<longrightarrow> p \<noteq> []"
    using format_message_file [OF assms(1,2)] by blast
  let ?m = "p @ message"
  have ne: "?m \<noteq> []"
    using p assms(3) by auto
  have out: "commitLog file level message = Inr (if last ?m = LF then ?m else ?m @ [LF])"
    using m ne by (simp add: commitLog_def write_line_def)
  have same: "last ?m = LF" if "message \<noteq> []" and "last message = LF"
    using that by simp
  have old: "commitLog_service False level message = Inr ?m"
    using commitLog_service_format [of "file" level message] assms(2) m by simp
  have "commitLog_service (fd = STDOUT) level message = format_message fd level message"
    by (rule commitLog_service_format)
  with m out same old show ?thesis by auto
qed

text \<open>An ERROR log on a file, without and with a newline at the end of its message.\<close>

theorem newline_terminated_witness:
  "ERROR \<in> {HEADER, INFO, DEBUG, ERROR} \<and> (3::int) \<noteq> STDOUT \<and>
   commitLog 3 ERROR ''disk full'' = Inr (''Error: disk full'' @ [LF]) \<and>
   commitLog 3 ERROR (''disk full'' @ [LF]) = Inr (''Error: disk full'' @ [LF]) \<and>
   commitLog_service False ERROR ''disk full'' = Inr ''Error: disk full''"
proof -
  have lv: "ERROR \<in> {HEADER, INFO, DEBUG, ERROR}" by simp
  have fl: "(3::int) \<noteq> STDOUT" by (simp add: STDOUT_def)
  have ne: "ERROR \<noteq> HEADER \<or> ''disk full'' \<noteq> []" by simp
  have ne': "ERROR \<noteq> HEADER \<or> ''disk full'' @ [LF] \<noteq> []" by simp
  have f: "format_message 3 ERROR m = Inr (''Error: '' @ m)" for m
    by (simp add: format_message_def switch_level_def ERROR_def HEADER_def INFO_def DEBUG_def
        STDOUT_def)
  show ?thesis
    using lv fl newline_terminated [OF lv fl ne, of 3] newline_terminated [OF lv fl ne', of 3]
    by (auto simp: f)
qed

section \<open>Properties of the service\<close>

lemma header_last: "header \<noteq> [] \<and> last header = LF"
  by (simp add: header_def)

lemma commit_header: "commitLog fd HEADER header = Inr (header_written fd)"
  using header_last
  by (simp add: commitLog_def format_message_def switch_level_def write_line_def apply_colour_def
      header_written_def reset_def)


lemma header_first_accept:
  "header_first fd s \<Longrightarrow> accept_one lmax level chunks s = Inr s' \<Longrightarrow> header_first fd s'"
  by (auto simp: accept_one_def header_first_def pushQueue_def split: sum.splits)

lemma header_first_process:
  assumes "header_first fd s" and "process_one s = Inr s'"
  shows "header_first fd s'"
proof (cases "sink s")
  case Nil
  with assms(1) obtain q where q: "logqueue s = (HEADER, header) # q" and fd: "file_fd s = fd"
    by (auto simp: header_first_def)
  from assms(2) have "s' = s\<lparr>logqueue := q, sink := sink s @ [header_written fd]\<rparr>"
    by (simp add: process_one_def popQueue_def q fd commit_header)
  with Nil fd show ?thesis by (simp add: header_first_def)
next
  case (Cons w ws)
  with assms(1) have w: "w = header_written fd" and fd: "file_fd s = fd"
    by (auto simp: header_first_def)
  from assms(2) Cons w fd show ?thesis
    by (auto simp: process_one_def popQueue_def header_first_def
        split: list.splits sum.splits)
qed

lemma header_first_step:
  "header_first fd s \<Longrightarrow> step lmax e s = Inr s' \<Longrightarrow> header_first fd s'"
  by (cases e) (auto intro: header_first_accept header_first_process)

lemma header_first_run:
  "header_first fd s \<Longrightarrow> header_first fd (fst (run lmax es s))"
proof (induction es arbitrary: s)
  case Nil
  then show ?case by simp
next
  case (Cons e es)
  show ?case
  proof (cases "step lmax e s")
    case (Inl f)
    with Cons.prems show ?thesis by simp
  next
    case (Inr s')
    with Cons.prems have "header_first fd s'" by (rule_tac header_first_step)
    with Inr Cons.IH show ?thesis by simp
  qed
qed







section \<open>Properties of the client\<close>

lemma to_string_digits: "\<forall>c \<in> set (to_string n). isdigit c"
proof (induction n rule: to_string.induct)
  case (1 n)
  show ?case
  proof (cases "n < 10")
    case True
    then show ?thesis by (subst to_string.simps) (simp add: isdigit_def)
  next
    case False
    have "n mod 10 < 10" by simp
    then have "isdigit (char_of (48 + n mod 10))"
      by (simp add: isdigit_def)
    with False 1 show ?thesis by (subst to_string.simps) simp
  qed
qed

lemma of_char_digit: "k < 10 \<Longrightarrow> (of_char (char_of (48 + k :: nat)) :: int) = 48 + int k"
proof -
  assume k: "k < 10"
  have "(of_char (char_of (48 + k)) :: int) = int (of_char (char_of (48 + k)))"
    by (simp only: of_nat_of_char)
  also have "\<dots> = int ((48 + k) mod 256)" by simp
  also have "\<dots> = 48 + int k" using k by simp
  finally show ?thesis .
qed

lemma to_string_not_Nil: "to_string n \<noteq> []"
  by (subst to_string.simps) simp

lemma digits_val_snoc:
  "digits_val acc (cs @ [c]) = 10 * digits_val acc cs + (of_char c - 48)"
  by (induction cs arbitrary: acc) simp_all

lemma digits_val_to_string: "digits_val 0 (to_string n) = int n"
proof (induction n rule: to_string.induct)
  case (1 n)
  show ?case
  proof (cases "n < 10")
    case True
    then show ?thesis by (subst to_string.simps) (simp add: of_char_digit)
  next
    case False
    have "n mod 10 < 10" by simp
    then have d: "(of_char (char_of (48 + n mod 10)) :: int) = 48 + int (n mod 10)"
      by (rule of_char_digit)
    from False 1 have "digits_val 0 (to_string (n div 10)) = int (n div 10)" by simp
    with False d show ?thesis
      by (subst to_string.simps) (simp add: digits_val_snoc zdiv_int zmod_int)
  qed
qed

lemma isdigit_not_space: "isdigit c \<Longrightarrow> \<not> isspace c \<and> c \<noteq> CHR ''-'' \<and> c \<noteq> CHR ''+''"
  by (auto simp: isdigit_def isspace_def)

lemma strtol_to_string:
  assumes "int n \<le> LONG_MAX"
  shows "strtol (to_string n) = (int n, False)"
proof -
  obtain c cs where s: "to_string n = c # cs"
    using to_string_not_Nil [of n] by (cases "to_string n") auto
  have all: "\<forall>c \<in> set (c # cs). isdigit c"
    using to_string_digits [of n] by (simp add: s)
  then have c: "\<not> isspace c \<and> c \<noteq> CHR ''-'' \<and> c \<noteq> CHR ''+''"
    using isdigit_not_space by simp
  have tw: "takeWhile isdigit (c # cs) = c # cs"
    using all by simp
  have v: "digits_val 0 (c # cs) = int n"
    using digits_val_to_string [of n] by (simp add: s)
  have dw: "dropWhile isspace (c # cs) = c # cs"
    using c by simp
  have "LONG_MIN \<le> int n" by (simp add: LONG_MIN_def)
  with assms c show ?thesis
    unfolding s strtol_def
    by (simp add: dw tw v Let_def del: digits_val.simps takeWhile.simps dropWhile.simps)
qed

text \<open>
  C10. When \<^verbatim>\<open>writeLog\<close> reaches its \<^verbatim>\<open>write\<close>, the bytes of that one call are the
  decimal digits of the level, a colon, the bytes of the message and one NUL: one more
  byte than the formatted \<^verbatim>\<open>log\<close>, which is the digits, the colon and the message. The
  digits are read back by \<^verbatim>\<open>strtol\<close> as the level.
\<close>

theorem writeLog_frame:
  assumes "socket_errno env = 0" and "0 \<le> connect_ret env"
  shows "snd (writeLog env level log) = Some (to_string (unat level) @ '':'' @ log @ [NUL]) \<and>
         length (the (snd (writeLog env level log))) = length (format_log level log) + 1 \<and>
         format_log level log = to_string (unat level) @ '':'' @ log \<and>
         strtol (to_string (unat level)) = (uint level, False)"
proof -
  have "uint level < 2 ^ LENGTH(8)" by (rule unsigned_less)
  then have "int (unat level) < 256" by simp
  then have "int (unat level) \<le> LONG_MAX" by (simp add: LONG_MAX_def)
  then have "strtol (to_string (unat level)) = (int (unat level), False)"
    by (rule strtol_to_string)
  then show ?thesis
    using assms by (simp add: writeLog_def format_log_def Let_def)
qed

text \<open>\<^verbatim>\<open>writeLog(INFO, "hello")\<close> on a connection that opens.\<close>

theorem writeLog_frame_witness:
  "snd (writeLog \<lparr>socket_errno = 0, connect_ret = 0, write_ret = 8\<rparr> INFO ''hello'')
     = Some (''1:hello'' @ [NUL])"
proof -
  let ?env = "\<lparr>socket_errno = 0, connect_ret = 0, write_ret = 8\<rparr>"
  have a: "socket_errno ?env = 0" by simp
  have b: "0 \<le> connect_ret ?env" by simp
  have one: "to_string (unat INFO) = ''1''"
    by code_simp
  show ?thesis
    using writeLog_frame [OF a b, of INFO "''hello''"] by (simp add: one)
qed

end
